theory Spec2Isabelle
  imports Main "HOL-Library.Multiset"
begin

section \<open>Outcomes of a Go call\<close>

text \<open>
  A Go function of this package either returns, or the goroutine stops: a run-time panic
  (here only an index out of range) or \<open>log.Fatal\<close>, which logs and exits the process.
  Both are the left summand; a returned value is the right one.
\<close>

datatype abort = PanicIndexOutOfRange | LogFatal string

definition and_then :: "abort + 'a \<Rightarrow> ('a \<Rightarrow> abort + 'b) \<Rightarrow> abort + 'b" where
  "and_then r f = (case r of Inl a \<Rightarrow> Inl a | Inr v \<Rightarrow> f v)"

text \<open>The value of \<open>errors.New(msg)\<close>; the \<open>error\<close> interface is \<open>error option\<close>, nil being \<open>None\<close>.\<close>

datatype error = errorString string

definition errors_New :: "string \<Rightarrow> error" where
  "errors_New msg = errorString msg"

text \<open>Indexing a slice, \<open>a[i]\<close>, with Go's bounds check.\<close>

definition index :: "'a list \<Rightarrow> nat \<Rightarrow> abort + 'a" where
  "index a i = (if i < length a then Inr (a ! i) else Inl PanicIndexOutOfRange)"

section \<open>The functions of package strings that the parser calls\<close>

text \<open>
  A Go string is a sequence of bytes, as \<open>string\<close> is. The program passes one-byte
  separators to \<open>Count\<close>, \<open>Contains\<close>, \<open>Split\<close> and \<open>SplitN\<close>, so the models take the
  separator as one \<open>char\<close>.
\<close>

text \<open>\<open>strings.Index(s, sep)\<close> for a one-byte \<open>sep\<close>: the first position of the byte, or -1.\<close>

fun Index :: "string \<Rightarrow> char \<Rightarrow> int" where
  "Index [] c = -1"
| "Index (x # xs) c =
     (if x = c then 0 else (let i = Index xs c in if i < 0 then -1 else i + 1))"

text \<open>\<open>strings.Contains(s, sep)\<close> is \<open>Index(s, sep) >= 0\<close>.\<close>

definition Contains :: "string \<Rightarrow> char \<Rightarrow> bool" where
  "Contains s c = (Index s c \<ge> 0)"

text \<open>\<open>strings.Count(s, sep)\<close> for a one-byte \<open>sep\<close>: the number of bytes equal to it.\<close>

fun Count :: "string \<Rightarrow> char \<Rightarrow> nat" where
  "Count [] c = 0"
| "Count (x # xs) c = (if x = c then 1 else 0) + Count xs c"

text \<open>
  \<open>strings.Replace(s, old, "", -1)\<close>: every non-overlapping occurrence of \<open>old\<close>, found
  from the left, is removed. With \<open>old\<close> empty, \<open>old\<close> equals the replacement and Go
  returns \<open>s\<close>.
\<close>

function Replace_by_empty :: "string \<Rightarrow> string \<Rightarrow> string" where
  "Replace_by_empty s old =
     (if old = [] \<or> s = [] then s
      else if take (length old) s = old then Replace_by_empty (drop (length old) s) old
      else hd s # Replace_by_empty (tl s) old)"
  by pat_completeness auto
termination
  by (relation "measure (\<lambda>(s, old). length s)") auto

declare Replace_by_empty.simps [simp del]

text \<open>
  The loop of \<open>genSplit(s, sep, 0, n)\<close> with \<open>k\<close> cuts left to make: cut at the first
  separator while one is found, the rest of the string is the last element.
\<close>

fun genSplit_loop :: "nat \<Rightarrow> string \<Rightarrow> char \<Rightarrow> string list" where
  "genSplit_loop 0 s c = [s]"
| "genSplit_loop (Suc k) s c =
     (let m = Index s c in
      if m < 0 then [s]
      else take (nat m) s # genSplit_loop k (drop (nat m + 1) s) c)"

text \<open>
  \<open>genSplit(s, sep, 0, n)\<close> for a one-byte \<open>sep\<close>: nil for \<open>n = 0\<close>, every cut for
  \<open>n < 0\<close>, at most \<open>n\<close> elements otherwise.
\<close>

definition genSplit :: "string \<Rightarrow> char \<Rightarrow> int \<Rightarrow> string list" where
  "genSplit s c n =
     (if n = 0 then []
      else
        let n1 = (if n < 0 then int (Count s c) + 1 else n);
            n2 = (if n1 > int (length s) + 1 then int (length s) + 1 else n1)
        in genSplit_loop (nat (n2 - 1)) s c)"

definition Split :: "string \<Rightarrow> char \<Rightarrow> string list" where
  "Split s c = genSplit s c (-1)"

definition SplitN :: "string \<Rightarrow> char \<Rightarrow> int \<Rightarrow> string list" where
  "SplitN s c n = genSplit s c n"

section \<open>The image reference parser\<close>

record Container =
  FullPath :: string
  URL :: string
  Name :: string
  Version :: string

text \<open>The zero value \<open>Container{}\<close>.\<close>

definition Container_zero :: Container where
  "Container_zero = \<lparr>FullPath = [], URL = [], Name = [], Version = []\<rparr>"

text \<open>
  \<open>ImageStringToContainerStruct\<close>. The local variables that the two \<open>if\<close> blocks assign
  are passed on as tuples; the two log calls leave the result unchanged and are left out.
\<close>

definition ImageStringToContainerStruct :: "string \<Rightarrow> abort + (Container \<times> error option)" where
  "ImageStringToContainerStruct raw =
     (let version = ''0'';
          URL = '''';
          fullPath = raw;
          name = raw;
          containerString = Replace_by_empty raw '':443''
      in
      if Count containerString CHR '':'' \<ge> 2
      then Inr (Container_zero, Some (errors_New ''We do not support URLs with ports''))
      else
        and_then
          (if Contains containerString CHR '':''
           then
             (let subAndVersion = Split containerString CHR '':'' in
              and_then (index subAndVersion 1) (\<lambda>version.
              and_then (index subAndVersion 0) (\<lambda>containerString.
              and_then (index subAndVersion 0) (\<lambda>name.
              Inr (version, containerString, name)))))
           else Inr (version, containerString, name))
          (\<lambda>(version, containerString, name).
        and_then
          (if Contains containerString CHR ''.''
           then
             (let urlAndImage = SplitN containerString CHR ''/'' 2 in
              and_then (index urlAndImage 0) (\<lambda>URL.
              and_then (index urlAndImage 1) (\<lambda>name.
              Inr (URL, name))))
           else Inr (URL, name))
          (\<lambda>(URL, name).
        Inr (\<lparr>FullPath = fullPath, URL = URL, Name = name, Version = version\<rparr>, None))))"

section \<open>The cluster, as the client shows it\<close>

text \<open>
  A pod, reduced to what the program reads of it: the \<open>Image\<close> of every element of
  \<open>pod.Spec.Containers\<close> and of \<open>pod.Spec.InitContainers\<close>, in order.
\<close>

record Pod =
  Spec_Containers :: "string list"
  Spec_InitContainers :: "string list"

text \<open>
  The two requests the program sends through the client, each returning Go's pair of a
  value and an error: \<open>client.CoreV1().Pods(namespace).List\<close> (the items) and
  \<open>client.CoreV1().Namespaces().List\<close> (the name of every item).
\<close>

record Clientset =
  Pods_List :: "string \<Rightarrow> Pod list \<times> error option"
  Namespaces_List :: "string list \<times> error option"

section \<open>Maps from string to bool\<close>

text \<open>
  A \<open>map[string]bool\<close> is a list of pairs with distinct keys. \<open>m[k] = v\<close> replaces the
  value of a key that is there and adds the pair otherwise.
\<close>

fun map_assign :: "(string \<times> bool) list \<Rightarrow> string \<Rightarrow> bool \<Rightarrow> (string \<times> bool) list" where
  "map_assign [] k v = [(k, v)]"
| "map_assign ((k', v') # m) k v =
     (if k' = k then (k, v) # m else (k', v') # map_assign m k v)"

text \<open>
  \<open>for key := range m\<close> visits every key once, in an order that Go leaves open. The order
  is a parameter \<open>range_order\<close> of the model: the keys of the map rearranged.
\<close>

definition range_keys :: "(string list \<Rightarrow> string list) \<Rightarrow> (string \<times> bool) list \<Rightarrow> string list" where
  "range_keys range_order m = range_order (map fst m)"

section \<open>Collecting and aggregating\<close>

text \<open>
  The body of the loop over the pods in \<open>getRunningContainers\<close>: the images of the
  containers of the pod are stored, then those of its init containers.
\<close>

definition pod_step :: "(string \<times> bool) list \<Rightarrow> Pod \<Rightarrow> (string \<times> bool) list" where
  "pod_step containers pod =
     foldl (\<lambda>containers image. map_assign containers image True)
       (foldl (\<lambda>containers image. map_assign containers image True)
          containers (Spec_Containers pod))
       (Spec_InitContainers pod)"

definition getRunningContainers :: "Clientset \<Rightarrow> string \<Rightarrow> abort + (string \<times> bool) list" where
  "getRunningContainers client namespace =
     (let containers = [];
          (pods, err) = Pods_List client namespace
      in
      if err \<noteq> None then Inl (LogFatal ''Could not fetch pods'')
      else Inr (foldl pod_step containers pods))"

definition getAllNamespaces :: "Clientset \<Rightarrow> abort + string list" where
  "getAllNamespaces client =
     (let ns = [];
          (namespaces, err) = Namespaces_List client
      in
      if err \<noteq> None then Inl (LogFatal ''Could not fetch namespaces'')
      else Inr (foldl (\<lambda>ns namespace. ns @ [namespace]) ns namespaces))"

definition getNamespaces :: "string list \<Rightarrow> Clientset \<Rightarrow> abort + string list" where
  "getNamespaces namespaces client =
     (if length namespaces = 0 then getAllNamespaces client else Inr namespaces)"

text \<open>The first loop of \<open>GetContainersFromNamespaces\<close>, over the namespaces.\<close>

fun merge_loop ::
  "(string list \<Rightarrow> string list) \<Rightarrow> Clientset \<Rightarrow> string list \<Rightarrow> (string \<times> bool) list
   \<Rightarrow> abort + (string \<times> bool) list" where
  "merge_loop range_order client [] runningContainers = Inr runningContainers"
| "merge_loop range_order client (namespace # namespaces) runningContainers =
     and_then (getRunningContainers client namespace) (\<lambda>containers.
     merge_loop range_order client namespaces
       (foldl (\<lambda>runningContainers key. map_assign runningContainers key True)
          runningContainers (range_keys range_order containers)))"

text \<open>The second loop, over the keys of \<open>runningContainers\<close> in the order of the range.\<close>

fun parse_loop :: "string list \<Rightarrow> Container list \<Rightarrow> abort + Container list" where
  "parse_loop [] containers = Inr containers"
| "parse_loop (key # keys) containers =
     and_then (ImageStringToContainerStruct key) (\<lambda>(container, err).
     parse_loop keys (if err = None then containers @ [container] else containers))"

text \<open>
  \<open>GetContainersFromNamespaces\<close>. Building the client reads the process environment and
  the kube configuration, and may end in \<open>log.Fatal\<close>: \<open>getKubernetesClient\<close> is a
  parameter, the outcome of that call for each value of the flag.
\<close>

definition GetContainersFromNamespaces ::
  "(bool \<Rightarrow> abort + Clientset) \<Rightarrow> (string list \<Rightarrow> string list) \<Rightarrow> string list \<Rightarrow> bool
   \<Rightarrow> abort + Container list" where
  "GetContainersFromNamespaces getKubernetesClient range_order namespaces useLocally =
     and_then (getKubernetesClient useLocally) (\<lambda>client.
     and_then (getNamespaces namespaces client) (\<lambda>namespaces.
     and_then (merge_loop range_order client namespaces []) (\<lambda>runningContainers.
     parse_loop (range_keys range_order runningContainers) [])))"

section \<open>Vocabulary of the properties\<close>

text \<open>The text before the first occurrence of a byte (all of it when the byte is absent), and the text after it.\<close>

definition text_before :: "char \<Rightarrow> string \<Rightarrow> string" where
  "text_before c s = takeWhile (\<lambda>x. x \<noteq> c) s"

definition text_after :: "char \<Rightarrow> string \<Rightarrow> string" where
  "text_after c s = tl (dropWhile (\<lambda>x. x \<noteq> c) s)"

text \<open>The reference after the removal of \<open>:443\<close>, and its working name: the part before the colon.\<close>

definition stripped :: "string \<Rightarrow> string" where
  "stripped raw = Replace_by_empty raw '':443''"

definition working_name :: "string \<Rightarrow> string" where
  "working_name raw = text_before CHR '':'' (stripped raw)"

text \<open>The error that the parser returns.\<close>

definition UnsupportedPortSyntax :: error where
  "UnsupportedPortSyntax = errors_New ''We do not support URLs with ports''"

text \<open>The record of a key that parses, and nothing for a key that returns the error.\<close>

definition parsed_record :: "string \<Rightarrow> Container option" where
  "parsed_record key =
     (case ImageStringToContainerStruct key of
        Inr (container, None) \<Rightarrow> Some container
      | _ \<Rightarrow> None)"

text \<open>The image strings of the pods of a namespace, and of a list of namespaces.\<close>

definition images_of_namespace :: "Clientset \<Rightarrow> string \<Rightarrow> string set" where
  "images_of_namespace client namespace =
     (\<Union>pod \<in> set (fst (Pods_List client namespace)).
        set (Spec_Containers pod) \<union> set (Spec_InitContainers pod))"

definition reported_images :: "Clientset \<Rightarrow> string list \<Rightarrow> string set" where
  "reported_images client namespaces = (\<Union>namespace \<in> set namespaces. images_of_namespace client namespace)"

text \<open>The records of an inventory that stand for a raw image string: those with that \<open>FullPath\<close>.\<close>

definition records_for :: "string \<Rightarrow> Container list \<Rightarrow> Container list" where
  "records_for raw containers = filter (\<lambda>container. FullPath container = raw) containers"

section \<open>Two clusters used as examples\<close>

text \<open>
  Namespace \<open>a\<close> runs \<open>nginx:1.19\<close> in two pods, one of them with an init container
  from a registry with a port; namespace \<open>b\<close> runs the same two images and \<open>busybox\<close>.
\<close>

definition cluster_example :: Clientset where
  "cluster_example =
     \<lparr>Pods_List = (\<lambda>namespace.
        if namespace = ''a'' then
          ([\<lparr>Spec_Containers = [''nginx:1.19''], Spec_InitContainers = []\<rparr>,
            \<lparr>Spec_Containers = [''nginx:1.19''],
             Spec_InitContainers = [''myregistry.io:5000/nginx:1.19'']\<rparr>], None)
        else if namespace = ''b'' then
          ([\<lparr>Spec_Containers = [''nginx:1.19'', ''myregistry.io:5000/nginx:1.19''],
             Spec_InitContainers = [''busybox'']\<rparr>], None)
        else ([], None)),
      Namespaces_List = ([''a'', ''b''], None)\<rparr>"

text \<open>A cluster that answers every request with an error.\<close>

definition cluster_unreachable :: Clientset where
  "cluster_unreachable =
     \<lparr>Pods_List = (\<lambda>namespace. ([], Some (errors_New ''connection refused''))),
      Namespaces_List = ([], Some (errors_New ''connection refused''))\<rparr>"

text \<open>A client that is built without failure, and two orders of a range: as stored, and reversed.\<close>

definition client_of_example :: "bool \<Rightarrow> abort + Clientset" where
  "client_of_example useLocally = Inr cluster_example"

definition stored_order :: "string list \<Rightarrow> string list" where
  "stored_order keys = keys"

definition reversed_order :: "string list \<Rightarrow> string list" where
  "reversed_order keys = rev keys"

section \<open>The string functions\<close>

lemma Index_neg_iff: "Index s c < 0 \<longleftrightarrow> c \<notin> set s"
  by (induction s) (auto simp: Let_def)

lemma Index_found: "c \<in> set s \<Longrightarrow> Index s c = int (length (takeWhile (\<lambda>x. x \<noteq> c) s))"
  by (induction s) (auto simp: Let_def Index_neg_iff)

lemma Contains_iff: "Contains s c \<longleftrightarrow> c \<in> set s"
  using Index_neg_iff [of s c] by (auto simp: Contains_def)

lemma Count_0_iff: "Count s c = 0 \<longleftrightarrow> c \<notin> set s"
  by (induction s) auto

lemma Count_le_length: "Count s c \<le> length s"
  by (induction s) auto

lemma cut_found:
  assumes "c \<in> set s"
  shows "take (nat (Index s c)) s = text_before c s"
    and "drop (nat (Index s c) + 1) s = text_after c s"
proof -
  have i: "nat (Index s c) = length (takeWhile (\<lambda>x. x \<noteq> c) s)"
    using Index_found [OF assms] by simp
  show "take (nat (Index s c)) s = text_before c s"
    unfolding i text_before_def by (rule takeWhile_eq_take [symmetric])
  show "drop (nat (Index s c) + 1) s = text_after c s"
    unfolding i text_after_def by (simp add: dropWhile_eq_drop drop_Suc tl_drop)
qed

lemma genSplit_loop_Suc_found:
  "c \<in> set s \<Longrightarrow>
   genSplit_loop (Suc k) s c = text_before c s # genSplit_loop k (text_after c s) c"
  using cut_found [of c s] Index_neg_iff [of s c] by (simp add: Let_def)

lemma genSplit_loop_absent: "c \<notin> set s \<Longrightarrow> genSplit_loop k s c = [s]"
  using Index_neg_iff [of s c] by (cases k) (simp_all add: Let_def)

lemma Split_one:
  assumes "Count s c = 1"
  shows "Split s c = [text_before c s, text_after c s]"
proof -
  have mem: "c \<in> set s" using assms Count_0_iff [of s c] by auto
  have "1 \<le> length s" using assms Count_le_length [of s c] by simp
  then have "genSplit s c (-1) = genSplit_loop (Suc 0) s c"
    using assms by (simp add: genSplit_def Let_def)
  also have "\<dots> = [text_before c s, text_after c s]"
    by (simp only: genSplit_loop_Suc_found [OF mem] genSplit_loop.simps(1))
  finally show ?thesis by (simp only: Split_def)
qed

lemma SplitN_2:
  assumes "s \<noteq> []"
  shows "SplitN s c 2 = (if c \<in> set s then [text_before c s, text_after c s] else [s])"
proof -
  have "1 \<le> length s" using assms by (cases s) auto
  then have "genSplit s c 2 = genSplit_loop (Suc 0) s c"
    by (simp add: genSplit_def Let_def)
  moreover have "c \<in> set s \<Longrightarrow> genSplit_loop (Suc 0) s c = [text_before c s, text_after c s]"
    by (simp only: genSplit_loop_Suc_found genSplit_loop.simps(1))
  moreover have "c \<notin> set s \<Longrightarrow> genSplit_loop (Suc 0) s c = [s]"
    by (rule genSplit_loop_absent)
  ultimately show ?thesis
    by (simp only: SplitN_def split: if_split) simp
qed

section \<open>What the parser returns\<close>

lemma parse_error:
  "2 \<le> Count (stripped raw) CHR '':'' \<Longrightarrow>
   ImageStringToContainerStruct raw = Inr (Container_zero, Some UnsupportedPortSyntax)"
  by (simp add: ImageStringToContainerStruct_def stripped_def UnsupportedPortSyntax_def Let_def)

lemma host_split:
  "(if Contains w CHR ''.''
    then and_then (index (SplitN w CHR ''/'' 2) 0) (\<lambda>URL.
         and_then (index (SplitN w CHR ''/'' 2) 1) (\<lambda>name. Inr (URL, name)))
    else Inr (u, n)) =
   (if CHR ''.'' \<in> set w
    then (if CHR ''/'' \<in> set w then Inr (text_before CHR ''/'' w, text_after CHR ''/'' w)
          else Inl PanicIndexOutOfRange)
    else Inr (u, n))"
proof (cases "CHR ''.'' \<in> set w")
  case True
  then have "w \<noteq> []" by auto
  then show ?thesis
    using True by (simp add: Contains_iff SplitN_2 index_def and_then_def)
next
  case False
  then show ?thesis by (simp add: Contains_iff)
qed

lemma parse_no_colon:
  assumes "CHR '':'' \<notin> set (stripped raw)"
  shows "ImageStringToContainerStruct raw =
     (if CHR ''.'' \<in> set (stripped raw)
      then (if CHR ''/'' \<in> set (stripped raw)
            then Inr (\<lparr>FullPath = raw, URL = text_before CHR ''/'' (stripped raw),
                       Name = text_after CHR ''/'' (stripped raw), Version = ''0''\<rparr>, None)
            else Inl PanicIndexOutOfRange)
      else Inr (\<lparr>FullPath = raw, URL = [], Name = raw, Version = ''0''\<rparr>, None))"
proof -
  have c0: "Count (stripped raw) CHR '':'' = 0"
    using assms by (simp add: Count_0_iff)
  show ?thesis
    unfolding ImageStringToContainerStruct_def Let_def host_split stripped_def [symmetric]
    using assms c0 by (simp add: Contains_iff and_then_def)
qed

lemma parse_one_colon:
  assumes "Count (stripped raw) CHR '':'' = 1"
  shows "ImageStringToContainerStruct raw =
     (if CHR ''.'' \<in> set (working_name raw)
      then (if CHR ''/'' \<in> set (working_name raw)
            then Inr (\<lparr>FullPath = raw, URL = text_before CHR ''/'' (working_name raw),
                       Name = text_after CHR ''/'' (working_name raw),
                       Version = text_after CHR '':'' (stripped raw)\<rparr>, None)
            else Inl PanicIndexOutOfRange)
      else Inr (\<lparr>FullPath = raw, URL = [], Name = working_name raw,
                 Version = text_after CHR '':'' (stripped raw)\<rparr>, None))"
proof -
  have mem: "CHR '':'' \<in> set (stripped raw)"
    using assms Count_0_iff [of "stripped raw" "CHR '':''"] by auto
  show ?thesis
    unfolding ImageStringToContainerStruct_def Let_def host_split stripped_def [symmetric]
    using assms mem
    by (simp add: Contains_iff Split_one index_def and_then_def working_name_def)
qed


section \<open>The scenarios of the specification, and the parser below two colons\<close>

lemmas parse_eval =
  ImageStringToContainerStruct_def Replace_by_empty.simps Contains_def Split_def SplitN_def
  genSplit_def index_def and_then_def Container_zero_def errors_New_def Let_def

lemma parse_scenario_1:
  "ImageStringToContainerStruct ''nginx'' =
   Inr (\<lparr>FullPath = ''nginx'', URL = [], Name = ''nginx'', Version = ''0''\<rparr>, None)"
  by (simp add: parse_eval)

lemma parse_scenario_2:
  "ImageStringToContainerStruct ''nginx:1.19'' =
   Inr (\<lparr>FullPath = ''nginx:1.19'', URL = [], Name = ''nginx'', Version = ''1.19''\<rparr>, None)"
  by (simp add: parse_eval)

lemma parse_scenario_5:
  "ImageStringToContainerStruct ''myregistry.io:5000/nginx:1.19'' =
   Inr (Container_zero, Some UnsupportedPortSyntax)"
  by (simp add: parse_eval UnsupportedPortSyntax_def)

lemma text_before_absent: "c \<notin> set s \<Longrightarrow> text_before c s = s"
  by (induction s) (auto simp: text_before_def)

lemma Count_append: "Count (a @ b) c = Count a c + Count b c"
  by (induction a) auto

lemma cut_decomposition: "c \<in> set s \<Longrightarrow> s = text_before c s @ c # text_after c s"
proof -
  assume "c \<in> set s"
  then have "dropWhile (\<lambda>x. x \<noteq> c) s \<noteq> []" by simp
  moreover have "dropWhile (\<lambda>x. x \<noteq> c) s \<noteq> [] \<Longrightarrow> hd (dropWhile (\<lambda>x. x \<noteq> c) s) = c"
    using hd_dropWhile [of "\<lambda>x. x \<noteq> c" s] by simp
  ultimately have "dropWhile (\<lambda>x. x \<noteq> c) s = c # text_after c s"
    by (cases "dropWhile (\<lambda>x. x \<noteq> c) s") (auto simp: text_after_def)
  then show ?thesis
    using takeWhile_dropWhile_id [of "\<lambda>x. x \<noteq> c" s] by (simp add: text_before_def)
qed

lemma text_after_empty_last:
  assumes "c \<in> set s" and "text_after c s = []"
  shows "last s = c"
  using cut_decomposition [OF assms(1)] assms(2)
  by (metis append_Nil2 last_snoc append_Cons append_Nil last_appendR list.distinct(1) last_ConsL)

lemma text_after_one_empty_iff:
  assumes "Count s c = 1"
  shows "text_after c s = [] \<longleftrightarrow> last s = c"
proof -
  have mem: "c \<in> set s" using assms Count_0_iff [of s c] by auto
  have dec: "s = text_before c s @ c # text_after c s" by (rule cut_decomposition [OF mem])
  have "Count s c = Count (text_before c s) c + 1 + Count (text_after c s) c"
    by (subst dec) (simp add: Count_append)
  then have "Count (text_after c s) c = 0" using assms by simp
  then have notin: "c \<notin> set (text_after c s)" by (simp add: Count_0_iff)
  show ?thesis
  proof
    assume "text_after c s = []"
    then show "last s = c" by (rule text_after_empty_last [OF mem])
  next
    assume l: "last s = c"
    show "text_after c s = []"
    proof (rule ccontr)
      assume ne: "text_after c s \<noteq> []"
      have "last s = last (text_after c s)"
        by (subst dec) (simp add: ne)
      then have "last s \<in> set (text_after c s)" using ne by simp
      then show False using l notin by simp
    qed
  qed
qed

lemma stripped_Nil: "stripped [] = []"
  by (simp add: stripped_def Replace_by_empty.simps)

lemma parse_below_two:
  assumes "Count (stripped raw) CHR '':'' < 2"
  shows "ImageStringToContainerStruct raw =
     (if CHR ''.'' \<in> set (working_name raw)
      then (if CHR ''/'' \<in> set (working_name raw)
            then Inr (\<lparr>FullPath = raw, URL = text_before CHR ''/'' (working_name raw),
                       Name = text_after CHR ''/'' (working_name raw),
                       Version = (if CHR '':'' \<in> set (stripped raw)
                                  then text_after CHR '':'' (stripped raw) else ''0'')\<rparr>, None)
            else Inl PanicIndexOutOfRange)
      else Inr (\<lparr>FullPath = raw, URL = [],
                 Name = (if CHR '':'' \<in> set (stripped raw) then working_name raw else raw),
                 Version = (if CHR '':'' \<in> set (stripped raw)
                            then text_after CHR '':'' (stripped raw) else ''0'')\<rparr>, None))"
proof (cases "CHR '':'' \<in> set (stripped raw)")
  case True
  then have "Count (stripped raw) CHR '':'' \<noteq> 0" by (simp add: Count_0_iff)
  then have "Count (stripped raw) CHR '':'' = 1" using assms by simp
  from parse_one_colon [OF this] True show ?thesis by simp
next
  case False
  then have "working_name raw = stripped raw"
    by (simp add: working_name_def text_before_absent)
  with parse_no_colon [OF False] False show ?thesis by simp
qed


lemma parse_scenario_3:
  "ImageStringToContainerStruct ''myregistry.io/nginx:1.19'' =
   Inr (\<lparr>FullPath = ''myregistry.io/nginx:1.19'', URL = ''myregistry.io'', Name = ''nginx'',
          Version = ''1.19''\<rparr>, None)"
  by (simp add: parse_eval)

lemma parse_not_error_below_two:
  "Count (stripped raw) CHR '':'' < 2 \<Longrightarrow> ImageStringToContainerStruct raw \<noteq> Inr (c, Some e)"
  by (simp add: parse_below_two)

lemma parse_returned_nil:
  assumes "ImageStringToContainerStruct raw = Inr (c, None)"
  shows "Count (stripped raw) CHR '':'' < 2"
proof (rule ccontr)
  assume "\<not> Count (stripped raw) CHR '':'' < 2"
  then have "2 \<le> Count (stripped raw) CHR '':''" by simp
  from parse_error [OF this] assms show False by simp
qed

lemma parse_returned_error:
  assumes "ImageStringToContainerStruct raw = Inr (c, Some e)"
  shows "2 \<le> Count (stripped raw) CHR '':''"
  using parse_not_error_below_two [of raw c e] assms by (cases "2 \<le> Count (stripped raw) CHR '':''") auto

lemma parse_FullPath:
  assumes "ImageStringToContainerStruct raw = Inr (c, None)"
  shows "FullPath c = raw"
  using assms parse_below_two [OF parse_returned_nil [OF assms]]
  by (auto split: if_splits)

text \<open>The inputs on which the parser panics: a working name with a dot and no \<open>/\<close>.\<close>

lemma parse_panics_iff:
  "(\<exists>a. ImageStringToContainerStruct raw = Inl a) =
   (Count (stripped raw) CHR '':'' < 2 \<and> CHR ''.'' \<in> set (working_name raw) \<and>
    CHR ''/'' \<notin> set (working_name raw))"
proof (cases "Count (stripped raw) CHR '':'' < 2")
  case True
  show ?thesis using True by (simp add: parse_below_two [OF True])
next
  case False
  then have "2 \<le> Count (stripped raw) CHR '':''" by simp
  from parse_error [OF this] False show ?thesis by simp
qed

section \<open>The claims about the parser\<close>

text \<open>
  Claim C1 says that the parser returns for every input, with a record or with the error,
  and never panics. The code does panic: for \<open>my.app:1.0\<close> the working name \<open>my.app\<close>
  has a dot and no \<open>/\<close>, \<open>SplitN\<close> returns one element, and \<open>urlAndImage[1]\<close> is out
  of range.
\<close>

theorem C1_panic_on_dotted_name_without_slash:
  "ImageStringToContainerStruct ''my.app:1.0'' = Inl PanicIndexOutOfRange"
  by (simp add: parse_eval)

text \<open>
  Claim C2 says that the result carries the input as \<open>FullPath\<close> on the error path too.
  Counterexample: with two colons left the code returns \<open>Container{}\<close>, whose
  \<open>FullPath\<close> is empty.
\<close>

theorem C2_counterexample:
  "ImageStringToContainerStruct ''myregistry.io:5000/nginx:1.19'' =
     Inr (Container_zero, Some UnsupportedPortSyntax) \<and>
   FullPath Container_zero \<noteq> ''myregistry.io:5000/nginx:1.19''"
  by (simp add: parse_eval UnsupportedPortSyntax_def)

text \<open>
  Claim C2, amended: for every input on which the parser returns a record and no error,
  the \<open>FullPath\<close> of the record is the input; beside an error the \<open>FullPath\<close> is empty.
\<close>

theorem C2_FullPath_of_parsed_record:
  assumes "ImageStringToContainerStruct raw = Inr (c, err)"
  shows "FullPath c = (if err = None then raw else [])"
proof (cases err)
  case None
  then show ?thesis using parse_FullPath [of raw c] assms by simp
next
  case (Some e)
  then have "2 \<le> Count (stripped raw) CHR '':''"
    using parse_returned_error [of raw c e] assms by simp
  from parse_error [OF this] assms Some show ?thesis
    by (simp add: Container_zero_def)
qed

text \<open>The amended claim C2 at \<open>nginx:1.19\<close>.\<close>

theorem C2_FullPath_of_parsed_record_witness:
  "ImageStringToContainerStruct ''nginx:1.19'' =
     Inr (\<lparr>FullPath = ''nginx:1.19'', URL = [], Name = ''nginx'', Version = ''1.19''\<rparr>, None) \<and>
   FullPath \<lparr>FullPath = ''nginx:1.19'', URL = [], Name = ''nginx'', Version = ''1.19''\<rparr> = ''nginx:1.19''"
  using C2_FullPath_of_parsed_record [OF parse_scenario_2] parse_scenario_2 by simp

text \<open>
  Claim C3 says that a parsed record has a non-empty \<open>FullPath\<close>, \<open>Name\<close> and
  \<open>Version\<close>. Counterexample: the empty input parses to a record with empty \<open>FullPath\<close>
  and \<open>Name\<close>, and \<open>nginx:\<close> parses to a record with empty \<open>Version\<close>.
\<close>

theorem C3_counterexample:
  "ImageStringToContainerStruct [] =
     Inr (\<lparr>FullPath = [], URL = [], Name = [], Version = ''0''\<rparr>, None) \<and>
   ImageStringToContainerStruct ''nginx:'' =
     Inr (\<lparr>FullPath = ''nginx:'', URL = [], Name = ''nginx'', Version = []\<rparr>, None)"
  by (simp add: parse_eval)

text \<open>
  Claim C3, amended: for every input on which parsing succeeds, \<open>FullPath\<close> is the input
  (so non-empty when the input is); \<open>Name\<close> is non-empty when the working name is
  non-empty and does not end in \<open>/\<close>; \<open>Version\<close> is \<open>0\<close> when no colon is left after
  the removal of \<open>:443\<close>, and is empty exactly when the stripped reference ends in its
  colon; \<open>URL\<close> is empty when the working name has no dot.
\<close>

theorem C3_fields_of_parsed_record:
  assumes "ImageStringToContainerStruct raw = Inr (c, None)"
  shows "FullPath c = raw \<and>
         (raw \<noteq> [] \<longrightarrow> FullPath c \<noteq> []) \<and>
         (working_name raw \<noteq> [] \<and> last (working_name raw) \<noteq> CHR ''/'' \<longrightarrow> Name c \<noteq> []) \<and>
         (CHR '':'' \<notin> set (stripped raw) \<longrightarrow> Version c = ''0'') \<and>
         ((Version c = []) = (stripped raw \<noteq> [] \<and> last (stripped raw) = CHR '':'')) \<and>
         (CHR ''.'' \<notin> set (working_name raw) \<longrightarrow> URL c = [])"
proof -
  have lt: "Count (stripped raw) CHR '':'' < 2" by (rule parse_returned_nil [OF assms])
  note eq = parse_below_two [OF lt]
  have fp: "FullPath c = raw" by (rule parse_FullPath [OF assms])
  have name: "Name c \<noteq> []" if w: "working_name raw \<noteq> []" "last (working_name raw) \<noteq> CHR ''/''"
  proof (cases "CHR ''.'' \<in> set (working_name raw)")
    case True
    then have sl: "CHR ''/'' \<in> set (working_name raw)"
      using eq assms by (auto split: if_splits)
    then have "Name c = text_after CHR ''/'' (working_name raw)"
      using eq assms True by auto
    then show ?thesis using text_after_empty_last [OF sl] w(2) by auto
  next
    case False
    then have n: "Name c = (if CHR '':'' \<in> set (stripped raw) then working_name raw else raw)"
      using eq assms by auto
    have "raw \<noteq> []" using w(1) by (auto simp: working_name_def stripped_Nil text_before_def)
    then show ?thesis using n w(1) by auto
  qed
  have v0: "Version c = ''0''" if "CHR '':'' \<notin> set (stripped raw)"
    using eq assms that by (auto split: if_splits)
  have ve: "(Version c = []) = (stripped raw \<noteq> [] \<and> last (stripped raw) = CHR '':'')"
  proof (cases "CHR '':'' \<in> set (stripped raw)")
    case True
    then have "Count (stripped raw) CHR '':'' \<noteq> 0" by (simp add: Count_0_iff)
    then have one: "Count (stripped raw) CHR '':'' = 1" using lt by simp
    have "Version c = text_after CHR '':'' (stripped raw)"
      using eq assms True by (auto split: if_splits)
    then show ?thesis using text_after_one_empty_iff [OF one] True by auto
  next
    case False
    then have "stripped raw \<noteq> [] \<Longrightarrow> last (stripped raw) \<noteq> CHR '':''"
      by (metis last_in_set)
    then show ?thesis using v0 [OF False] by auto
  qed
  have url: "URL c = []" if "CHR ''.'' \<notin> set (working_name raw)"
    using eq assms that by auto
  show ?thesis using fp name v0 ve url by auto
qed

text \<open>The amended claim C3 at \<open>nginx:1.19\<close>.\<close>

theorem C3_fields_of_parsed_record_witness:
  "ImageStringToContainerStruct ''nginx:1.19'' =
     Inr (\<lparr>FullPath = ''nginx:1.19'', URL = [], Name = ''nginx'', Version = ''1.19''\<rparr>, None) \<and>
   working_name ''nginx:1.19'' \<noteq> [] \<and> last (working_name ''nginx:1.19'') \<noteq> CHR ''/'' \<and>
   CHR ''.'' \<notin> set (working_name ''nginx:1.19'') \<and>
   \<not> (stripped ''nginx:1.19'' \<noteq> [] \<and> last (stripped ''nginx:1.19'') = CHR '':'') \<and>
   Name \<lparr>FullPath = ''nginx:1.19'', URL = [], Name = ''nginx'', Version = ''1.19''\<rparr> \<noteq> [] \<and>
   Version \<lparr>FullPath = ''nginx:1.19'', URL = [], Name = ''nginx'', Version = ''1.19''\<rparr> \<noteq> [] \<and>
   URL \<lparr>FullPath = ''nginx:1.19'', URL = [], Name = ''nginx'', Version = ''1.19''\<rparr> = []"
  using C3_fields_of_parsed_record [OF parse_scenario_2] parse_scenario_2
  by (simp add: working_name_def stripped_def text_before_def Replace_by_empty.simps)



text \<open>
  A reference with no dot before its first \<open>/\<close> has a working name with no dot before
  its first \<open>/\<close>: the working name is a prefix of the reference.
\<close>

lemma stripped_prefix_working:
  "CHR ''.'' \<notin> set (text_before CHR ''/'' (stripped raw)) \<Longrightarrow>
   CHR ''.'' \<notin> set (text_before CHR ''/'' (working_name raw))"
proof -
  have "text_before c (takeWhile P s) = takeWhile P (text_before c s)" for c P and s :: string
    by (induction s) (auto simp: text_before_def)
  then have "set (text_before CHR ''/'' (working_name raw)) \<subseteq> set (text_before CHR ''/'' (stripped raw))"
    unfolding working_name_def
    by (metis set_takeWhileD subsetI text_before_def)
  then show "CHR ''.'' \<notin> set (text_before CHR ''/'' (stripped raw)) \<Longrightarrow>
   CHR ''.'' \<notin> set (text_before CHR ''/'' (working_name raw))" by auto
qed

text \<open>
  Claim C4 says that a reference with at most one colon after the removal of \<open>:443\<close>
  and no dot before the first \<open>/\<close> parses to a record with an empty \<open>URL\<close>.
  Counterexample: \<open>library/my.app\<close> has no colon and no dot before its \<open>/\<close>, and the
  dot after the \<open>/\<close> makes \<open>library\<close> the \<open>URL\<close>.
\<close>

theorem C4_counterexample:
  "Count (stripped ''library/my.app'') CHR '':'' \<le> 1 \<and>
   CHR ''.'' \<notin> set (text_before CHR ''/'' (stripped ''library/my.app'')) \<and>
   ImageStringToContainerStruct ''library/my.app'' =
     Inr (\<lparr>FullPath = ''library/my.app'', URL = ''library'', Name = ''my.app'',
            Version = ''0''\<rparr>, None)"
  by (simp add: parse_eval stripped_def text_before_def)

text \<open>
  Claim C4, amended: for every reference that has at most one colon after the removal of
  \<open>:443\<close> and whose working name has no dot before its first \<open>/\<close> (as is the case
  when the stripped reference has no dot before its first \<open>/\<close>), parsing succeeds; the
  \<open>URL\<close> of the record is empty when the working name has no dot at all, and is the text
  before the first \<open>/\<close> when the working name has a dot.
\<close>

theorem C4_no_dot_in_working_name:
  assumes "Count (stripped raw) CHR '':'' \<le> 1"
    and "CHR ''.'' \<notin> set (text_before CHR ''/'' (working_name raw))"
  shows "\<exists>c. ImageStringToContainerStruct raw = Inr (c, None) \<and>
             (CHR ''.'' \<notin> set (working_name raw) \<longrightarrow> URL c = []) \<and>
             (CHR ''.'' \<in> set (working_name raw) \<longrightarrow>
                URL c = text_before CHR ''/'' (working_name raw))"
proof -
  have lt: "Count (stripped raw) CHR '':'' < 2" using assms(1) by simp
  have "CHR ''/'' \<in> set (working_name raw)" if "CHR ''.'' \<in> set (working_name raw)"
  proof (rule ccontr)
    assume "CHR ''/'' \<notin> set (working_name raw)"
    then have "text_before CHR ''/'' (working_name raw) = working_name raw"
      by (rule text_before_absent)
    with that assms(2) show False by simp
  qed
  then show ?thesis
    using parse_below_two [OF lt] by auto
qed

text \<open>The amended claim C4 at \<open>nginx:1.19\<close>.\<close>

theorem C4_no_dot_in_working_name_witness:
  "Count (stripped ''nginx:1.19'') CHR '':'' \<le> 1 \<and>
   CHR ''.'' \<notin> set (text_before CHR ''/'' (working_name ''nginx:1.19'')) \<and>
   CHR ''.'' \<notin> set (working_name ''nginx:1.19'') \<and>
   (\<exists>c. ImageStringToContainerStruct ''nginx:1.19'' = Inr (c, None) \<and> URL c = [])"
proof -
  have s: "stripped ''nginx:1.19'' = ''nginx:1.19''"
    by (simp add: stripped_def Replace_by_empty.simps)
  have w: "working_name ''nginx:1.19'' = ''nginx''"
    by (simp add: working_name_def s text_before_def)
  have h1: "Count (stripped ''nginx:1.19'') CHR '':'' \<le> 1" by (simp add: s)
  have h2: "CHR ''.'' \<notin> set (text_before CHR ''/'' (working_name ''nginx:1.19''))"
    by (simp add: w text_before_def)
  have h3: "CHR ''.'' \<notin> set (working_name ''nginx:1.19'')" by (simp add: w)
  from C4_no_dot_in_working_name [OF h1 h2] h3 h1 h2 show ?thesis by auto
qed

text \<open>
  Claim C5: the parser returns the error \<open>We do not support URLs with ports\<close> (with the
  zero record) exactly for the references that have two or more colons after the removal
  of \<open>:443\<close>, and it returns no other error. To fail is to return a non-nil error here;
  the panic of claim C1 is not an error value.
\<close>

theorem C5_error_iff_two_colons:
  "(ImageStringToContainerStruct raw = Inr (Container_zero, Some UnsupportedPortSyntax)) =
     (2 \<le> Count (stripped raw) CHR '':'') \<and>
   (\<exists>c e. ImageStringToContainerStruct raw = Inr (c, Some e)) =
     (2 \<le> Count (stripped raw) CHR '':'')"
  using parse_error [of raw] parse_returned_error [of raw] by auto

text \<open>Claim C5 at \<open>myregistry.io:5000/nginx:1.19\<close>, which fails, and at \<open>nginx:1.19\<close>, which does not.\<close>

theorem C5_error_iff_two_colons_witness:
  "2 \<le> Count (stripped ''myregistry.io:5000/nginx:1.19'') CHR '':'' \<and>
   ImageStringToContainerStruct ''myregistry.io:5000/nginx:1.19'' =
     Inr (Container_zero, Some UnsupportedPortSyntax) \<and>
   \<not> 2 \<le> Count (stripped ''nginx:1.19'') CHR '':'' \<and>
   \<not> (\<exists>c e. ImageStringToContainerStruct ''nginx:1.19'' = Inr (c, Some e))"
proof -
  have a: "2 \<le> Count (stripped ''myregistry.io:5000/nginx:1.19'') CHR '':''"
    by (simp add: stripped_def Replace_by_empty.simps)
  have b: "\<not> 2 \<le> Count (stripped ''nginx:1.19'') CHR '':''"
    by (simp add: stripped_def Replace_by_empty.simps)
  from a b C5_error_iff_two_colons [of "''myregistry.io:5000/nginx:1.19''"]
    C5_error_iff_two_colons [of "''nginx:1.19''"]
  show ?thesis by blast
qed

text \<open>
  Claim C6: \<open>myregistry.io:443/nginx:1.19\<close> is stripped to \<open>myregistry.io/nginx:1.19\<close>
  and parses to the \<open>URL\<close> \<open>myregistry.io\<close>, the \<open>Name\<close> \<open>nginx\<close> and the
  \<open>Version\<close> \<open>1.19\<close>, as \<open>myregistry.io/nginx:1.19\<close> does.
\<close>

theorem C6_default_port_is_stripped:
  "stripped ''myregistry.io:443/nginx:1.19'' = ''myregistry.io/nginx:1.19'' \<and>
   ImageStringToContainerStruct ''myregistry.io:443/nginx:1.19'' =
     Inr (\<lparr>FullPath = ''myregistry.io:443/nginx:1.19'', URL = ''myregistry.io'',
            Name = ''nginx'', Version = ''1.19''\<rparr>, None) \<and>
   ImageStringToContainerStruct ''myregistry.io/nginx:1.19'' =
     Inr (\<lparr>FullPath = ''myregistry.io/nginx:1.19'', URL = ''myregistry.io'',
            Name = ''nginx'', Version = ''1.19''\<rparr>, None)"
  by (simp add: parse_eval stripped_def)

text \<open>
  Claim C10: whenever the parser returns an error, the record beside it is the zero value:
  the four fields are empty, and the input is not in it.
\<close>

theorem C10_error_record_is_zero:
  assumes "ImageStringToContainerStruct raw = Inr (c, Some e)"
  shows "c = Container_zero \<and> e = UnsupportedPortSyntax \<and>
         FullPath c = [] \<and> URL c = [] \<and> Name c = [] \<and> Version c = []"
  using parse_error [OF parse_returned_error [OF assms]] assms
  by (auto simp: Container_zero_def)

text \<open>Claim C10 at \<open>myregistry.io:5000/nginx:1.19\<close>.\<close>

theorem C10_error_record_is_zero_witness:
  "ImageStringToContainerStruct ''myregistry.io:5000/nginx:1.19'' =
     Inr (Container_zero, Some UnsupportedPortSyntax) \<and>
   FullPath Container_zero = [] \<and> URL Container_zero = [] \<and>
   Name Container_zero = [] \<and> Version Container_zero = []"
  using C10_error_record_is_zero [OF parse_scenario_5] parse_scenario_5 by simp



section \<open>The keys of the maps, and the two loops\<close>

lemma keys_map_assign: "fst ` set (map_assign m k v) = insert k (fst ` set m)"
  by (induction m k v rule: map_assign.induct) (simp_all add: insert_commute)

lemma distinct_map_assign: "distinct (map fst m) \<Longrightarrow> distinct (map fst (map_assign m k v))"
  by (induction m k v rule: map_assign.induct) (auto simp: keys_map_assign)

lemma keys_foldl_assign:
  "fst ` set (foldl (\<lambda>m k. map_assign m k True) m ks) = fst ` set m \<union> set ks"
  by (induction ks arbitrary: m) (simp_all add: keys_map_assign)

lemma distinct_foldl_assign:
  "distinct (map fst m) \<Longrightarrow> distinct (map fst (foldl (\<lambda>m k. map_assign m k True) m ks))"
  by (induction ks arbitrary: m) (auto simp: distinct_map_assign)

lemma keys_pods:
  "fst ` set (foldl pod_step m pods) =
   fst ` set m \<union> (\<Union>pod \<in> set pods. set (Spec_Containers pod) \<union> set (Spec_InitContainers pod))"
  by (induction pods arbitrary: m) (simp_all add: pod_step_def keys_foldl_assign Un_assoc)

lemma distinct_pods:
  "distinct (map fst m) \<Longrightarrow> distinct (map fst (foldl pod_step m pods))"
  by (induction pods arbitrary: m) (simp_all add: pod_step_def distinct_foldl_assign)

lemma getRunningContainers_returns:
  assumes "snd (Pods_List client namespace) = None"
  shows "\<exists>m. getRunningContainers client namespace = Inr m \<and> distinct (map fst m) \<and>
             set (map fst m) = images_of_namespace client namespace"
proof -
  obtain pods where p: "Pods_List client namespace = (pods, None)"
    using assms by (cases "Pods_List client namespace") auto
  have "getRunningContainers client namespace = Inr (foldl pod_step [] pods)"
    by (simp add: getRunningContainers_def p)
  moreover have "distinct (map fst (foldl pod_step [] pods))"
    by (rule distinct_pods) simp
  moreover have "set (map fst (foldl pod_step [] pods)) = images_of_namespace client namespace"
    by (simp add: keys_pods images_of_namespace_def p)
  ultimately show ?thesis by blast
qed

lemma merge_loop_returns:
  assumes "\<forall>ks. mset (range_order ks) = mset ks"
    and "\<forall>namespace \<in> set namespaces. snd (Pods_List client namespace) = None"
    and "distinct (map fst running)"
  shows "\<exists>m. merge_loop range_order client namespaces running = Inr m \<and> distinct (map fst m) \<and>
             set (map fst m) = set (map fst running) \<union> reported_images client namespaces"
  using assms(2,3)
proof (induction namespaces arbitrary: running)
  case Nil
  then show ?case by (simp add: reported_images_def)
next
  case (Cons namespace namespaces)
  obtain containers where c: "getRunningContainers client namespace = Inr containers"
    "set (map fst containers) = images_of_namespace client namespace"
    using getRunningContainers_returns [of client namespace] Cons.prems(1) by auto
  let ?running = "foldl (\<lambda>m k. map_assign m k True) running (range_keys range_order containers)"
  have keys: "set (range_keys range_order containers) = images_of_namespace client namespace"
    using assms(1) c(2) by (metis mset_eq_setD range_keys_def)
  have d: "distinct (map fst ?running)"
    by (rule distinct_foldl_assign [OF Cons.prems(2)])
  have "\<forall>namespace \<in> set namespaces. snd (Pods_List client namespace) = None"
    using Cons.prems(1) by simp
  from Cons.IH [OF this d] obtain m where
    m: "merge_loop range_order client namespaces ?running = Inr m" "distinct (map fst m)"
       "set (map fst m) = set (map fst ?running) \<union> reported_images client namespaces"
    by blast
  have "merge_loop range_order client (namespace # namespaces) running = Inr m"
    by (simp add: c(1) and_then_def m(1))
  moreover have "set (map fst m) =
     set (map fst running) \<union> reported_images client (namespace # namespaces)"
    using m(3) keys by (auto simp: keys_foldl_assign reported_images_def)
  ultimately show ?case using m(2) by blast
qed

lemma parse_loop_returns:
  "\<forall>key \<in> set keys. \<forall>a. ImageStringToContainerStruct key \<noteq> Inl a \<Longrightarrow>
   parse_loop keys containers = Inr (containers @ List.map_filter parsed_record keys)"
proof (induction keys arbitrary: containers)
  case Nil
  then show ?case by (simp add: map_filter_simps)
next
  case (Cons key keys)
  then obtain c err where r: "ImageStringToContainerStruct key = Inr (c, err)"
    by (cases "ImageStringToContainerStruct key") auto
  have rest: "\<forall>key \<in> set keys. \<forall>a. ImageStringToContainerStruct key \<noteq> Inl a"
    using Cons.prems by simp
  show ?case
    by (cases err) (simp_all add: r and_then_def Cons.IH [OF rest] map_filter_simps parsed_record_def)
qed

lemma aggregate_returns:
  assumes "\<forall>ks. mset (range_order ks) = mset ks"
    and "getKubernetesClient useLocally = Inr client"
    and "getNamespaces namespaces client = Inr nss"
    and "\<forall>namespace \<in> set nss. snd (Pods_List client namespace) = None"
    and "\<forall>key \<in> reported_images client nss. \<forall>a. ImageStringToContainerStruct key \<noteq> Inl a"
  shows "\<exists>keys. distinct keys \<and> set keys = reported_images client nss \<and>
           GetContainersFromNamespaces getKubernetesClient range_order namespaces useLocally =
             Inr (List.map_filter parsed_record keys)"
proof -
  from merge_loop_returns [OF assms(1) assms(4), of "[]"] obtain m where
    m: "merge_loop range_order client nss [] = Inr m" "distinct (map fst m)"
       "set (map fst m) = reported_images client nss"
    by auto
  let ?keys = "range_keys range_order m"
  have s: "set ?keys = reported_images client nss"
    using assms(1) m(3) by (metis mset_eq_setD range_keys_def)
  have d: "distinct ?keys"
    using assms(1) m(2) by (metis mset_eq_imp_distinct_iff range_keys_def)
  have "parse_loop ?keys [] = Inr ([] @ List.map_filter parsed_record ?keys)"
    by (rule parse_loop_returns) (use assms(5) s in simp)
  then have "GetContainersFromNamespaces getKubernetesClient range_order namespaces useLocally =
             Inr (List.map_filter parsed_record ?keys)"
    by (simp add: GetContainersFromNamespaces_def assms(2,3) m(1) and_then_def)
  with d s show ?thesis by blast
qed


lemma parsed_record_Some:
  "parsed_record key = Some c \<longleftrightarrow> ImageStringToContainerStruct key = Inr (c, None)"
  by (auto simp: parsed_record_def split: sum.splits prod.splits option.splits)

lemma parsed_record_None:
  "ImageStringToContainerStruct key = Inr (c, Some e) \<Longrightarrow> parsed_record key = None"
  by (simp add: parsed_record_def)

lemma parsed_record_FullPath: "parsed_record key = Some c \<Longrightarrow> FullPath c = key"
  by (simp add: parsed_record_Some parse_FullPath)

lemma length_map_filter:
  "length (List.map_filter f ks) = length (filter (\<lambda>k. f k \<noteq> None) ks)"
  by (induction ks) (auto simp: map_filter_simps split: option.splits)

lemma FullPath_map_filter:
  "FullPath ` set (List.map_filter parsed_record ks) = {k \<in> set ks. parsed_record k \<noteq> None}"
proof (induction ks)
  case Nil
  show ?case by (simp add: map_filter_simps)
next
  case (Cons k ks)
  show ?case
  proof (cases "parsed_record k")
    case None
    then show ?thesis using Cons.IH by (auto simp: map_filter_simps)
  next
    case (Some c)
    then have "FullPath c = k" by (rule parsed_record_FullPath)
    then show ?thesis using Some Cons.IH by (auto simp: map_filter_simps)
  qed
qed

lemma records_for_map_filter:
  "distinct ks \<Longrightarrow>
   records_for s (List.map_filter parsed_record ks) =
     (if s \<in> set ks then (case parsed_record s of None \<Rightarrow> [] | Some c \<Rightarrow> [c]) else [])"
proof (induction ks)
  case Nil
  show ?case by (simp add: map_filter_simps records_for_def)
next
  case (Cons k ks)
  then have IH: "records_for s (List.map_filter parsed_record ks) =
     (if s \<in> set ks then (case parsed_record s of None \<Rightarrow> [] | Some c \<Rightarrow> [c]) else [])"
    and k: "k \<notin> set ks" by simp_all
  show ?case
  proof (cases "parsed_record k")
    case None
    then have "records_for s (List.map_filter parsed_record (k # ks)) =
               records_for s (List.map_filter parsed_record ks)"
      by (simp add: map_filter_simps)
    then show ?thesis using IH None k by auto
  next
    case (Some c)
    then have fp: "FullPath c = k" by (rule parsed_record_FullPath)
    have "records_for s (List.map_filter parsed_record (k # ks)) =
          (if k = s then [c] else []) @ records_for s (List.map_filter parsed_record ks)"
      using Some fp by (simp add: map_filter_simps records_for_def)
    then show ?thesis using IH Some k by auto
  qed
qed

section \<open>The example cluster, evaluated\<close>

lemma parse_busybox:
  "ImageStringToContainerStruct ''busybox'' =
   Inr (\<lparr>FullPath = ''busybox'', URL = [], Name = ''busybox'', Version = ''0''\<rparr>, None)"
  by (simp add: parse_eval)

lemma reported_example:
  "reported_images cluster_example [''a'', ''b''] =
   {''nginx:1.19'', ''myregistry.io:5000/nginx:1.19'', ''busybox''}"
  by (auto simp: reported_images_def images_of_namespace_def cluster_example_def)

lemmas aggregate_eval =
  GetContainersFromNamespaces_def getNamespaces_def getAllNamespaces_def
  getRunningContainers_def pod_step_def range_keys_def cluster_example_def client_of_example_def
  stored_order_def reversed_order_def and_then_def
  parse_scenario_2 parse_scenario_5 parse_busybox

lemma example_inventory_stored:
  "GetContainersFromNamespaces client_of_example stored_order [''a'', ''b''] False =
   Inr [\<lparr>FullPath = ''nginx:1.19'', URL = [], Name = ''nginx'', Version = ''1.19''\<rparr>,
        \<lparr>FullPath = ''busybox'', URL = [], Name = ''busybox'', Version = ''0''\<rparr>]"
  by (simp add: aggregate_eval)

lemma example_inventory_reversed:
  "GetContainersFromNamespaces client_of_example reversed_order [] False =
   Inr [\<lparr>FullPath = ''busybox'', URL = [], Name = ''busybox'', Version = ''0''\<rparr>,
        \<lparr>FullPath = ''nginx:1.19'', URL = [], Name = ''nginx'', Version = ''1.19''\<rparr>]"
  by (simp add: aggregate_eval)

section \<open>The claims about aggregation and the namespaces\<close>

text \<open>
  Claim C7: when the client is built, the pods of every namespace are listed without
  error, one reported image string \<open>bad\<close> makes the parser return its error and the
  \<open>N\<close> other reported strings parse, then the aggregation returns, whatever the order
  of the ranges, exactly \<open>N\<close> records, those of the \<open>N\<close> strings, and none for
  \<open>bad\<close>.
\<close>

theorem C7_failing_entry_is_dropped:
  assumes "\<forall>ks. mset (range_order ks) = mset ks"
    and "getKubernetesClient useLocally = Inr client"
    and "getNamespaces namespaces client = Inr nss"
    and "\<forall>namespace \<in> set nss. snd (Pods_List client namespace) = None"
    and "bad \<in> reported_images client nss"
    and "ImageStringToContainerStruct bad = Inr (c_bad, Some e)"
    and "\<forall>key \<in> reported_images client nss - {bad}.
           \<exists>c. ImageStringToContainerStruct key = Inr (c, None)"
    and "card (reported_images client nss - {bad}) = N"
  shows "\<exists>containers.
           GetContainersFromNamespaces getKubernetesClient range_order namespaces useLocally =
             Inr containers \<and>
           length containers = N \<and>
           FullPath ` set containers = reported_images client nss - {bad} \<and>
           records_for bad containers = []"
proof -
  have nopanic: "\<forall>key \<in> reported_images client nss. \<forall>a. ImageStringToContainerStruct key \<noteq> Inl a"
    using assms(6,7) by (metis Diff_iff Inl_Inr_False singletonD)
  from aggregate_returns [where getKubernetesClient = getKubernetesClient
      and useLocally = useLocally, OF assms(1-4) nopanic] obtain keys where
    k: "distinct keys" "set keys = reported_images client nss"
       "GetContainersFromNamespaces getKubernetesClient range_order namespaces useLocally =
          Inr (List.map_filter parsed_record keys)"
    by blast
  have good: "{key \<in> set keys. parsed_record key \<noteq> None} = reported_images client nss - {bad}"
  proof -
    have "parsed_record bad = None" by (rule parsed_record_None [OF assms(6)])
    moreover have "parsed_record key \<noteq> None" if "key \<in> reported_images client nss - {bad}" for key
      using assms(7) that by (metis option.distinct(1) parsed_record_Some)
    ultimately show ?thesis using k(2) by auto
  qed
  have "length (List.map_filter parsed_record keys) =
        card {key \<in> set keys. parsed_record key \<noteq> None}"
    using distinct_length_filter [OF k(1), of "\<lambda>key. parsed_record key \<noteq> None"]
    by (simp add: length_map_filter Collect_conj_eq Int_commute)
  then have len: "length (List.map_filter parsed_record keys) = N"
    using good assms(8) by simp
  have fp: "FullPath ` set (List.map_filter parsed_record keys) = reported_images client nss - {bad}"
    using good by (simp add: FullPath_map_filter)
  have "records_for bad (List.map_filter parsed_record keys) = []"
    using records_for_map_filter [OF k(1), of bad] parsed_record_None [OF assms(6)] by simp
  with k(3) len fp show ?thesis by blast
qed


text \<open>
  Claim C7 at the example cluster, with all namespaces discovered and the ranges reversed:
  two records, none for \<open>myregistry.io:5000/nginx:1.19\<close>.
\<close>

theorem C7_failing_entry_is_dropped_witness:
  "(\<forall>ks. mset (reversed_order ks) = mset ks) \<and>
   client_of_example False = Inr cluster_example \<and>
   getNamespaces [] cluster_example = Inr [''a'', ''b''] \<and>
   snd (Pods_List cluster_example ''a'') = None \<and>
   snd (Pods_List cluster_example ''b'') = None \<and>
   reported_images cluster_example [''a'', ''b''] =
     {''nginx:1.19'', ''myregistry.io:5000/nginx:1.19'', ''busybox''} \<and>
   ImageStringToContainerStruct ''myregistry.io:5000/nginx:1.19'' =
     Inr (Container_zero, Some UnsupportedPortSyntax) \<and>
   ImageStringToContainerStruct ''nginx:1.19'' =
     Inr (\<lparr>FullPath = ''nginx:1.19'', URL = [], Name = ''nginx'', Version = ''1.19''\<rparr>, None) \<and>
   ImageStringToContainerStruct ''busybox'' =
     Inr (\<lparr>FullPath = ''busybox'', URL = [], Name = ''busybox'', Version = ''0''\<rparr>, None) \<and>
   (\<exists>containers.
      GetContainersFromNamespaces client_of_example reversed_order [] False = Inr containers \<and>
      length containers = 2 \<and>
      FullPath ` set containers = {''nginx:1.19'', ''busybox''} \<and>
      records_for ''myregistry.io:5000/nginx:1.19'' containers = [])"
proof -
  have h1: "\<forall>ks. mset (reversed_order ks) = mset ks" by (simp add: reversed_order_def)
  have h2: "client_of_example False = Inr cluster_example" by (simp add: client_of_example_def)
  have h3: "getNamespaces [] cluster_example = Inr [''a'', ''b'']"
    by (simp add: getNamespaces_def getAllNamespaces_def cluster_example_def)
  have p: "snd (Pods_List cluster_example ''a'') = None"
    "snd (Pods_List cluster_example ''b'') = None"
    by (simp_all add: cluster_example_def)
  then have h4: "\<forall>namespace \<in> set [''a'', ''b'']. snd (Pods_List cluster_example namespace) = None"
    by simp
  have h5: "''myregistry.io:5000/nginx:1.19'' \<in> reported_images cluster_example [''a'', ''b'']"
    by (simp add: reported_example)
  have d: "reported_images cluster_example [''a'', ''b''] - {''myregistry.io:5000/nginx:1.19''} =
           {''nginx:1.19'', ''busybox''}"
    by (auto simp: reported_example)
  have h7: "\<forall>key \<in> reported_images cluster_example [''a'', ''b''] - {''myregistry.io:5000/nginx:1.19''}.
      \<exists>c. ImageStringToContainerStruct key = Inr (c, None)"
    by (simp add: d parse_scenario_2 parse_busybox)
  have h8: "card (reported_images cluster_example [''a'', ''b''] - {''myregistry.io:5000/nginx:1.19''}) = 2"
    by (simp add: d)
  from C7_failing_entry_is_dropped [where getKubernetesClient = client_of_example
      and useLocally = False, OF h1 h2 h3 h4 h5 parse_scenario_5 h7 h8]
  have "\<exists>containers.
      GetContainersFromNamespaces client_of_example reversed_order [] False = Inr containers \<and>
      length containers = 2 \<and>
      FullPath ` set containers = {''nginx:1.19'', ''busybox''} \<and>
      records_for ''myregistry.io:5000/nginx:1.19'' containers = []"
    by (simp only: d)
  with h1 h2 h3 p reported_example parse_scenario_5 parse_scenario_2 parse_busybox
  show ?thesis by blast
qed

text \<open>
  Claim C8 says that a string reported by two namespaces has exactly one record in the
  inventory. Counterexample: \<open>myregistry.io:5000/nginx:1.19\<close> is reported by \<open>a\<close> and
  by \<open>b\<close>, the parser returns its error for it, and the inventory has no record for it.
\<close>

theorem C8_counterexample:
  "''myregistry.io:5000/nginx:1.19'' \<in> images_of_namespace cluster_example ''a'' \<and>
   ''myregistry.io:5000/nginx:1.19'' \<in> images_of_namespace cluster_example ''b'' \<and>
   GetContainersFromNamespaces client_of_example stored_order [''a'', ''b''] False =
     Inr [\<lparr>FullPath = ''nginx:1.19'', URL = [], Name = ''nginx'', Version = ''1.19''\<rparr>,
          \<lparr>FullPath = ''busybox'', URL = [], Name = ''busybox'', Version = ''0''\<rparr>] \<and>
   records_for ''myregistry.io:5000/nginx:1.19''
     [\<lparr>FullPath = ''nginx:1.19'', URL = [], Name = ''nginx'', Version = ''1.19''\<rparr>,
      \<lparr>FullPath = ''busybox'', URL = [], Name = ''busybox'', Version = ''0''\<rparr>] = []"
  by (simp add: example_inventory_stored records_for_def images_of_namespace_def cluster_example_def)

text \<open>
  Claim C8, amended: when the aggregation meets no fatal error and no panic, it returns an
  inventory in which every reported string, however many pods and namespaces report it,
  has exactly one record, the one the parser returns for it, if it parses, and no record if
  the parser returns its error.
\<close>

theorem C8_one_record_per_parsed_string:
  assumes "\<forall>ks. mset (range_order ks) = mset ks"
    and "getKubernetesClient useLocally = Inr client"
    and "getNamespaces namespaces client = Inr nss"
    and "\<forall>namespace \<in> set nss. snd (Pods_List client namespace) = None"
    and "\<forall>key \<in> reported_images client nss. \<forall>a. ImageStringToContainerStruct key \<noteq> Inl a"
  shows "\<exists>containers.
           GetContainersFromNamespaces getKubernetesClient range_order namespaces useLocally =
             Inr containers \<and>
           (\<forall>raw \<in> reported_images client nss. \<forall>c err.
              ImageStringToContainerStruct raw = Inr (c, err) \<longrightarrow>
              records_for raw containers = (if err = None then [c] else []))"
proof -
  from aggregate_returns [where getKubernetesClient = getKubernetesClient
      and useLocally = useLocally, OF assms] obtain keys where
    k: "distinct keys" "set keys = reported_images client nss"
       "GetContainersFromNamespaces getKubernetesClient range_order namespaces useLocally =
          Inr (List.map_filter parsed_record keys)"
    by blast
  have "records_for raw (List.map_filter parsed_record keys) = (if err = None then [c] else [])"
    if "raw \<in> reported_images client nss" "ImageStringToContainerStruct raw = Inr (c, err)"
    for raw c err
    using records_for_map_filter [OF k(1), of raw] that k(2)
    by (cases err) (simp_all add: parsed_record_def)
  with k(3) show ?thesis by blast
qed

text \<open>
  The amended claim C8 at the example cluster: \<open>nginx:1.19\<close>, run by two pods of \<open>a\<close>
  and one of \<open>b\<close>, has one record.
\<close>

theorem C8_one_record_per_parsed_string_witness:
  "(\<forall>ks. mset (stored_order ks) = mset ks) \<and>
   client_of_example True = Inr cluster_example \<and>
   getNamespaces [''a'', ''b''] cluster_example = Inr [''a'', ''b''] \<and>
   snd (Pods_List cluster_example ''a'') = None \<and>
   snd (Pods_List cluster_example ''b'') = None \<and>
   reported_images cluster_example [''a'', ''b''] =
     {''nginx:1.19'', ''myregistry.io:5000/nginx:1.19'', ''busybox''} \<and>
   ImageStringToContainerStruct ''myregistry.io:5000/nginx:1.19'' =
     Inr (Container_zero, Some UnsupportedPortSyntax) \<and>
   ImageStringToContainerStruct ''nginx:1.19'' =
     Inr (\<lparr>FullPath = ''nginx:1.19'', URL = [], Name = ''nginx'', Version = ''1.19''\<rparr>, None) \<and>
   ImageStringToContainerStruct ''busybox'' =
     Inr (\<lparr>FullPath = ''busybox'', URL = [], Name = ''busybox'', Version = ''0''\<rparr>, None) \<and>
   ''nginx:1.19'' \<in> images_of_namespace cluster_example ''a'' \<and>
   ''nginx:1.19'' \<in> images_of_namespace cluster_example ''b'' \<and>
   (\<exists>containers.
      GetContainersFromNamespaces client_of_example stored_order [''a'', ''b''] True =
        Inr containers \<and>
      records_for ''nginx:1.19'' containers =
        [\<lparr>FullPath = ''nginx:1.19'', URL = [], Name = ''nginx'', Version = ''1.19''\<rparr>] \<and>
      records_for ''myregistry.io:5000/nginx:1.19'' containers = [])"
proof -
  have h1: "\<forall>ks. mset (stored_order ks) = mset ks" by (simp add: stored_order_def)
  have h2: "client_of_example True = Inr cluster_example" by (simp add: client_of_example_def)
  have h3: "getNamespaces [''a'', ''b''] cluster_example = Inr [''a'', ''b'']"
    by (simp add: getNamespaces_def)
  have p: "snd (Pods_List cluster_example ''a'') = None"
    "snd (Pods_List cluster_example ''b'') = None"
    by (simp_all add: cluster_example_def)
  then have h4: "\<forall>namespace \<in> set [''a'', ''b'']. snd (Pods_List cluster_example namespace) = None"
    by simp
  have h5: "\<forall>key \<in> reported_images cluster_example [''a'', ''b''].
      \<forall>a. ImageStringToContainerStruct key \<noteq> Inl a"
    by (simp add: reported_example parse_scenario_2 parse_scenario_5 parse_busybox)
  have m: "''nginx:1.19'' \<in> reported_images cluster_example [''a'', ''b'']"
    "''myregistry.io:5000/nginx:1.19'' \<in> reported_images cluster_example [''a'', ''b'']"
    by (simp_all add: reported_example)
  have i: "''nginx:1.19'' \<in> images_of_namespace cluster_example ''a''"
    "''nginx:1.19'' \<in> images_of_namespace cluster_example ''b''"
    by (simp_all add: images_of_namespace_def cluster_example_def)
  from C8_one_record_per_parsed_string [where getKubernetesClient = client_of_example
      and useLocally = True, OF h1 h2 h3 h4 h5]
  obtain containers where
    c: "GetContainersFromNamespaces client_of_example stored_order [''a'', ''b''] True =
          Inr containers"
       "\<forall>raw \<in> reported_images cluster_example [''a'', ''b'']. \<forall>c err.
          ImageStringToContainerStruct raw = Inr (c, err) \<longrightarrow>
          records_for raw containers = (if err = None then [c] else [])"
    by blast
  have "records_for ''nginx:1.19'' containers =
        [\<lparr>FullPath = ''nginx:1.19'', URL = [], Name = ''nginx'', Version = ''1.19''\<rparr>]"
    using c(2) m(1) parse_scenario_2 by fastforce
  moreover have "records_for ''myregistry.io:5000/nginx:1.19'' containers = []"
    using c(2) m(2) parse_scenario_5 by fastforce
  ultimately show ?thesis
    using c(1) h1 h2 h3 p i reported_example parse_scenario_5 parse_scenario_2 parse_busybox
    by blast
qed

text \<open>
  Claim C9: a non-empty list of requested namespaces is returned as it is, whatever the
  cluster would answer; the empty list is resolved by \<open>getAllNamespaces\<close>.
\<close>

theorem C9_requested_namespaces_unchanged:
  "(namespaces \<noteq> [] \<longrightarrow> getNamespaces namespaces client = Inr namespaces) \<and>
   getNamespaces [] client = getAllNamespaces client"
  by (simp add: getNamespaces_def)

text \<open>
  Claim C9 at a cluster that answers with errors: the requested list comes back, and only
  the empty list meets the error. At the example cluster the empty list gives its two
  namespaces.
\<close>

theorem C9_requested_namespaces_unchanged_witness:
  "[''kube-system'', ''default''] \<noteq> [] \<and>
   getNamespaces [''kube-system'', ''default''] cluster_unreachable =
     Inr [''kube-system'', ''default''] \<and>
   getNamespaces [] cluster_unreachable = Inl (LogFatal ''Could not fetch namespaces'') \<and>
   getNamespaces [] cluster_example = Inr [''a'', ''b'']"
  using C9_requested_namespaces_unchanged [of "[''kube-system'', ''default'']" cluster_unreachable]
    C9_requested_namespaces_unchanged [of "[]" cluster_example]
  by (simp add: getAllNamespaces_def cluster_unreachable_def cluster_example_def)


end
